theory Spec2Isabelle
  imports Main
begin

section \<open>The download page of \<open>client/src/pages/home.tsx\<close>\<close>

text \<open>
  The component \<open>Home\<close> keeps five pieces of React state (platform, download type,
  input text, download state, console lines) and changes them in its handlers
  \<open>addConsoleLine\<close>, \<open>validateInput\<close>, \<open>handleDownload\<close> and \<open>resetState\<close>.
  The handlers are embedded here as functions that take the component's state and
  return the new one. What the handlers read from the browser (the wall clock, the
  epoch time, the answer of \<open>fetch\<close>) is a parameter of type \<open>env\<close>.

  A JavaScript string is modelled as a \<open>string\<close>: one \<open>char\<close> stands for one code
  unit in the range 0..255.
\<close>

subsection \<open>Data\<close>

datatype Platform = Youtube | Tiktok

datatype DownloadType = Video | Audio | Search

datatype Status = Idle | Processing | Downloading | Complete | Error

text \<open>The interface \<open>DownloadState\<close>; an optional field that is absent is \<open>None\<close>.\<close>

record DownloadState =
  status :: Status
  progress :: nat
  message :: string
  downloadUrl :: "string option"
  filename :: "string option"

text \<open>A call of \<open>toast\<close>; \<open>destructive\<close> says that \<open>variant: "destructive"\<close> was given.\<close>

record Toast =
  title :: string
  description :: string
  destructive :: bool

text \<open>
  The state of the component. Three fields are not in the source and only record what
  happened: \<open>toasts\<close> lists the notifications issued so far, \<open>history\<close> lists every
  value the download state has had (the initial one, then the argument of each call of
  \<open>setDownloadState\<close>), and \<open>clockReads\<close> counts the readings of the wall clock.
\<close>

record app =
  platform :: Platform
  downloadType :: DownloadType
  inputValue :: string
  downloadState :: DownloadState
  consoleLines :: "string list"
  toasts :: "Toast list"
  history :: "DownloadState list"
  clockReads :: nat

subsection \<open>The browser\<close>

text \<open>
  A value that \<open>JSON.parse\<close> can return. A number is given by the string that
  JavaScript prints for it (\<open>''0''\<close> for both zeros), which is all the page uses of it.
\<close>

datatype json =
    JNull
  | JBool bool
  | JNum string
  | JStr string
  | JArr "json list"
  | JObj "(string \<times> json) list"

text \<open>
  What the page reads of a \<open>Response\<close>: its status code, what \<open>response.json()\<close>
  resolves to (\<open>None\<close> when it rejects), what
  \<open>response.headers.get("Content-Disposition")\<close> returns (\<open>None\<close> for \<open>null\<close>), and
  what \<open>response.blob()\<close> resolves to: the size of the blob in bytes, or \<open>Inl m\<close> when it
  rejects with an error whose message is \<open>m\<close>.
\<close>

record response =
  resp_status :: nat
  json_body :: "json option"
  contentDisposition :: "string option"
  blob :: "string + nat"

datatype reqBody = Query string | Url string

text \<open>
  The environment of one run of a handler: \<open>clock k\<close> is what
  \<open>new Date().toLocaleTimeString()\<close> returns at the \<open>k\<close>-th reading of the clock,
  \<open>now\<close> is \<open>Date.now()\<close>, and \<open>fetch\<close> answers a POST to an endpoint with a response,
  or rejects with an error whose message is given (\<open>Inl\<close>). The text of the TypeError
  that the runtime throws when an object cannot be converted to a primitive value is
  the runtime's choice, so it is a field too.
\<close>

record env =
  clock :: "nat \<Rightarrow> string"
  now :: int
  fetch :: "string \<Rightarrow> reqBody \<Rightarrow> string + response"
  typeErrorMessage :: string

subsection \<open>String operations of JavaScript\<close>

text \<open>\<open>String.prototype.trim\<close>: the white space and line terminators below 256.\<close>

definition isWhiteSpace :: "char \<Rightarrow> bool" where
  "isWhiteSpace c \<longleftrightarrow>
     c \<in> set [CHR 0x09, CHR 0x0A, CHR 0x0B, CHR 0x0C, CHR 0x0D, CHR 0x20, CHR 0xA0]"

definition trim :: "string \<Rightarrow> string" where
  "trim s = rev (dropWhile isWhiteSpace (rev (dropWhile isWhiteSpace s)))"

fun startsWith :: "string \<Rightarrow> string \<Rightarrow> bool" where
  "startsWith s [] = True"
| "startsWith [] (p # ps) = False"
| "startsWith (c # cs) (p # ps) = (c = p \<and> startsWith cs ps)"

text \<open>\<open>String.prototype.includes\<close>.\<close>

fun includesStr :: "string \<Rightarrow> string \<Rightarrow> bool" where
  "includesStr [] sub = (sub = [])"
| "includesStr (c # cs) sub = (startsWith (c # cs) sub \<or> includesStr cs sub)"

text \<open>\<open>xs.slice(-n)\<close>: the last \<open>n\<close> elements, all of them when there are fewer.\<close>

definition sliceLast :: "nat \<Rightarrow> 'a list \<Rightarrow> 'a list" where
  "sliceLast n xs = drop (length xs - n) xs"

definition digit :: "nat \<Rightarrow> char" where
  "digit d = char_of (48 + d)"

text \<open>The decimal digits of a natural number, as a template literal prints them.\<close>

fun digits :: "nat \<Rightarrow> string" where
  "digits n = (if n < 10 then [digit n] else digits (n div 10) @ [digit (n mod 10)])"

declare digits.simps [simp del]

definition showInt :: "int \<Rightarrow> string" where
  "showInt i = (if i < 0 then CHR ''-'' # digits (nat (- i)) else digits (nat i))"

text \<open>
  \<open>(blob.size / 1024 / 1024).toFixed(2)\<close>. Dividing by a power of two is exact, and
  \<open>toFixed(2)\<close> prints \<open>n / 100\<close> for the integer \<open>n\<close> nearest to a hundred times its
  argument, the larger one of two.
\<close>

definition toFixed2MB :: "nat \<Rightarrow> string" where
  "toFixed2MB sz =
     (let n = (sz * 100 + 524288) div 1048576
      in digits (n div 100) @ ''.'' @ [digit (n mod 100 div 10), digit (n mod 10)])"

text \<open>\<open>toUpperCase\<close>, for the lower-case ASCII words it is applied to.\<close>

definition upperChar :: "char \<Rightarrow> char" where
  "upperChar c =
     (if 97 \<le> (of_char c :: nat) \<and> (of_char c :: nat) \<le> 122
      then char_of ((of_char c :: nat) - 32) else c)"

definition toUpperCase :: "string \<Rightarrow> string" where
  "toUpperCase s = map upperChar s"

definition platformStr :: "Platform \<Rightarrow> string" where
  "platformStr p = (case p of Youtube \<Rightarrow> ''youtube'' | Tiktok \<Rightarrow> ''tiktok'')"

definition typeStr :: "DownloadType \<Rightarrow> string" where
  "typeStr t = (case t of Video \<Rightarrow> ''video'' | Audio \<Rightarrow> ''audio'' | Search \<Rightarrow> ''search'')"

subsection \<open>Values of JavaScript\<close>

text \<open>Whether a parsed value counts as true in \<open>||\<close>.\<close>

fun truthy :: "json \<Rightarrow> bool" where
  "truthy JNull = False"
| "truthy (JBool b) = b"
| "truthy (JNum r) = (r \<noteq> ''0'')"
| "truthy (JStr s) = (s \<noteq> [])"
| "truthy (JArr xs) = True"
| "truthy (JObj kvs) = True"

fun joinComma :: "string list \<Rightarrow> string" where
  "joinComma [] = []"
| "joinComma [s] = s"
| "joinComma (s # t # ts) = s @ '','' @ joinComma (t # ts)"

text \<open>The results of a list of conversions, when none of them has failed.\<close>

fun allSome :: "'a option list \<Rightarrow> 'a list option" where
  "allSome [] = Some []"
| "allSome (None # xs) = None"
| "allSome (Some y # xs) = (case allSome xs of None \<Rightarrow> None | Some ys \<Rightarrow> Some (y # ys))"

text \<open>
  The conversion to a string that \<open>new Error(v)\<close> applies to its argument; \<open>None\<close> when
  it throws a TypeError. A parsed object has no callable property of its own, so an
  object with a key \<open>toString\<close> of its own cannot be converted (the inherited
  \<open>valueOf\<close> returns the object itself); any other object prints as
  \<open>[object Object]\<close>. An array is joined with commas: \<open>null\<close> elements print as
  nothing, and the conversion of the array fails when that of an element does.
\<close>

fun toStringJS :: "json \<Rightarrow> string option" where
  "toStringJS JNull = Some ''null''"
| "toStringJS (JBool b) = Some (if b then ''true'' else ''false'')"
| "toStringJS (JNum r) = Some r"
| "toStringJS (JStr s) = Some s"
| "toStringJS (JArr xs) =
     map_option joinComma
       (allSome (map (\<lambda>x. if x = JNull then Some [] else toStringJS x) xs))"
| "toStringJS (JObj kvs) =
     (if map_of kvs ''toString'' = None then Some ''[object Object]'' else None)"

text \<open>
  Reading \<open>error.message\<close> of a parsed value: a TypeError on \<open>null\<close>, \<open>undefined\<close> where
  there is no such property; of a repeated key the last one counts.
\<close>

datatype property = Throws | Undefined | Value json

fun getMessage :: "json \<Rightarrow> property" where
  "getMessage JNull = Throws"
| "getMessage (JObj kvs) =
     (case map_of (rev kvs) ''message'' of None \<Rightarrow> Undefined | Some v \<Rightarrow> Value v)"
| "getMessage j = Undefined"

subsection \<open>The console\<close>

text \<open>
  The updater of \<open>addConsoleLine\<close>:
  \<^verbatim>\<open>prev => [...prev.slice(-10), `[${new Date().toLocaleTimeString()}] ${line}`]\<close>
\<close>

definition consoleEntry :: "string \<Rightarrow> string \<Rightarrow> string" where
  "consoleEntry ts line = ''['' @ ts @ ''] '' @ line"

definition consoleUpdater :: "string \<Rightarrow> string \<Rightarrow> string list \<Rightarrow> string list" where
  "consoleUpdater ts line prev = sliceLast 10 prev @ [consoleEntry ts line]"

definition addConsoleLine :: "env \<Rightarrow> string \<Rightarrow> app \<Rightarrow> app" where
  "addConsoleLine e line a =
     a\<lparr>consoleLines := consoleUpdater (clock e (clockReads a)) line (consoleLines a),
       clockReads := Suc (clockReads a)\<rparr>"

text \<open>Appending several lines, one call of \<open>addConsoleLine\<close> each.\<close>

definition addConsoleLines :: "env \<Rightarrow> string list \<Rightarrow> app \<Rightarrow> app" where
  "addConsoleLines e ls a = foldl (\<lambda>b l. addConsoleLine e l b) a ls"

subsection \<open>State changes\<close>

definition setDownloadState :: "DownloadState \<Rightarrow> app \<Rightarrow> app" where
  "setDownloadState s a = a\<lparr>downloadState := s, history := history a @ [s]\<rparr>"

definition toast :: "Toast \<Rightarrow> app \<Rightarrow> app" where
  "toast t a = a\<lparr>toasts := toasts a @ [t]\<rparr>"

text \<open>The state literal \<open>{ status, progress, message }\<close>.\<close>

definition mkState :: "Status \<Rightarrow> nat \<Rightarrow> string \<Rightarrow> DownloadState" where
  "mkState st p m =
     \<lparr>status = st, progress = p, message = m, downloadUrl = None, filename = None\<rparr>"

text \<open>The component as it is first rendered.\<close>

definition initApp :: app where
  "initApp =
     \<lparr>platform = Youtube, downloadType = Video, inputValue = [],
      downloadState = mkState Idle 0 [], consoleLines = [], toasts = [],
      history = [mkState Idle 0 []], clockReads = 0\<rparr>"

subsection \<open>Validation\<close>

text \<open>\<open>validateInput\<close>: the result, and the state with the toast it may have issued.\<close>

definition validateInput :: "app \<Rightarrow> bool \<times> app" where
  "validateInput a =
     (if trim (inputValue a) = [] then
        (False, toast \<lparr>title = ''ERROR.EMPTY_INPUT'',
                       description = (if downloadType a = Search
                                      then ''Please provide a username''
                                      else ''Please provide a URL''),
                       destructive = True\<rparr> a)
      else if downloadType a \<noteq> Search \<and> platform a = Youtube
                \<and> \<not> includesStr (inputValue a) ''youtu'' then
        (False, toast \<lparr>title = ''ERROR.INVALID_URL'',
                       description = ''Please provide a valid YouTube URL'',
                       destructive = True\<rparr> a)
      else if downloadType a \<noteq> Search \<and> platform a = Tiktok
                \<and> \<not> includesStr (inputValue a) ''tiktok'' then
        (False, toast \<lparr>title = ''ERROR.INVALID_URL'',
                       description = ''Please provide a valid TikTok URL'',
                       destructive = True\<rparr> a)
      else (True, a))"

subsection \<open>The message of a failed response\<close>

text \<open>
  Lines 100 to 107 of \<open>handleDownload\<close>: the message of the error thrown for a response
  that is not ok. When \<open>new Error(errorMessage)\<close> cannot convert its argument, the
  error thrown is the runtime's TypeError; it is thrown outside the inner \<open>try\<close> and
  reaches the \<open>catch\<close> block of \<open>handleDownload\<close> like the error meant.
  \<^verbatim>\<open>
  let errorMessage = "Download failed";
  try {
    const error = await response.json();
    errorMessage = error.message || errorMessage;
  } catch {
    errorMessage = `Server error: ${response.status}`;
  }
  throw new Error(errorMessage);
  \<close>
\<close>

definition errorMessageOf :: "env \<Rightarrow> response \<Rightarrow> string" where
  "errorMessageOf e r =
     (case json_body r of
        None \<Rightarrow> ''Server error: '' @ digits (resp_status r)
      | Some j \<Rightarrow>
          (case getMessage j of
             Throws \<Rightarrow> ''Server error: '' @ digits (resp_status r)
           | Undefined \<Rightarrow> ''Download failed''
           | Value v \<Rightarrow>
               if truthy v then
                 (case toStringJS v of Some s \<Rightarrow> s | None \<Rightarrow> typeErrorMessage e)
               else ''Download failed''))"

text \<open>\<open>response.ok\<close>: the status is in the range 200 to 299.\<close>

definition ok :: "response \<Rightarrow> bool" where
  "ok r \<longleftrightarrow> 200 \<le> resp_status r \<and> resp_status r \<le> 299"

subsection \<open>The file name\<close>

text \<open>
  The regular expression \<^verbatim>\<open>/filename="?([^";\n]+)"?/\<close>. The class of the group
  excludes the double quote, the semicolon and the line feed.
\<close>

definition nameChar :: "char \<Rightarrow> bool" where
  "nameChar c \<longleftrightarrow> c \<noteq> CHR 0x22 \<and> c \<noteq> CHR 0x3B \<and> c \<noteq> CHR 0x0A"

text \<open>
  A match that starts at the head of \<open>s\<close>, as the group it captures. After \<open>filename=\<close>
  an optional quote is taken when it is there; the group is the longest run of
  characters of the class and must not be empty. When the quote is followed by no such
  character, leaving the quote out does not help either, as the quote is not in the
  class.
\<close>

definition matchAt :: "string \<Rightarrow> string option" where
  "matchAt s =
     (if startsWith s ''filename='' then
        (let rest = drop 9 s;
             body = (case rest of [] \<Rightarrow> [] | c # cs \<Rightarrow> if c = CHR 0x22 then cs else rest);
             grp = takeWhile nameChar body
         in if grp = [] then None else Some grp)
      else None)"

text \<open>\<open>s.match(re)\<close>: the match at the leftmost position that has one.\<close>

fun matchFilename :: "string \<Rightarrow> string option" where
  "matchFilename [] = None"
| "matchFilename (c # cs) =
     (case matchAt (c # cs) of Some g \<Rightarrow> Some g | None \<Rightarrow> matchFilename cs)"

text \<open>
  Lines 116 to 119 of \<open>handleDownload\<close>: the name that the header gives, if any. An
  empty header counts as false in \<open>if (contentDisposition)\<close>.
\<close>

definition dispositionName :: "string option \<Rightarrow> string option" where
  "dispositionName cd =
     (case cd of None \<Rightarrow> None | Some h \<Rightarrow> if h = [] then None else matchFilename h)"

text \<open>
  Lines 113 to 122 of \<open>handleDownload\<close>, with the platform, the type, \<open>Date.now()\<close> and
  the header as arguments.
\<close>

definition resolveFilename :: "Platform \<Rightarrow> DownloadType \<Rightarrow> int \<Rightarrow> string option \<Rightarrow> string" where
  "resolveFilename p t millis cd =
     (let synthesized = platformStr p @ ''_'' @ typeStr t @ ''_'' @ showInt millis;
          name = (case dispositionName cd of Some g \<Rightarrow> g | None \<Rightarrow> synthesized);
          ext = (if t = Audio then ''.mp3'' else ''.mp4'')
      in if \<not> includesStr name ''.'' then name @ ext else name)"

subsection \<open>The submission\<close>

definition endpoint :: "app \<Rightarrow> string" where
  "endpoint a = ''/api/'' @ platformStr (platform a) @ ''/'' @ typeStr (downloadType a)"

definition requestBody :: "app \<Rightarrow> reqBody" where
  "requestBody a =
     (if downloadType a = Search then Query (inputValue a) else Url (inputValue a))"

text \<open>
  The \<open>try\<close> block of \<open>handleDownload\<close> (lines 86 to 150): the state it leaves, and the
  message of the error it throws, if any. Saving the blob through a link element is the
  browser's work and leaves the state alone.
\<close>

definition tryBlock :: "env \<Rightarrow> app \<Rightarrow> string option \<times> app" where
  "tryBlock e a0 =
     (let a1 = addConsoleLine e ''> CONNECTING TO API ENDPOINT...'' a0;
          a2 = setDownloadState (mkState Processing 20 ''ESTABLISHING_SECURE_CONNECTION...'') a1
      in case fetch e (endpoint a0) (requestBody a0) of
           Inl m \<Rightarrow> (Some m, a2)
         | Inr r \<Rightarrow>
             if \<not> ok r then (Some (errorMessageOf e r), a2)
             else
               (let a3 = addConsoleLine e ''> CONNECTION_ESTABLISHED'' a2;
                    a4 = setDownloadState (mkState Downloading 50 ''EXTRACTING_MEDIA_STREAM...'') a3;
                    fname = resolveFilename (platform a0) (downloadType a0) (now e)
                              (contentDisposition r);
                    a5 = addConsoleLine e (''> DOWNLOADING: '' @ fname) a4;
                    a6 = setDownloadState (mkState Downloading 70 ''STREAMING_DATA...'') a5
                in case blob r of
                     Inl m \<Rightarrow> (Some m, a6)
                   | Inr sz \<Rightarrow>
                       if sz < 1024 then
                         (Some ''Downloaded file is too small - may be invalid'', a6)
                       else
                         (let a7 = addConsoleLine e
                                     (''> DOWNLOAD_COMPLETE: '' @ toFixed2MB sz @ '' MB'') a6;
                              a8 = setDownloadState
                                     ((mkState Complete 100 ''DOWNLOAD.COMPLETE'')
                                        \<lparr>filename := Some fname\<rparr>) a7;
                              a9 = addConsoleLine e (''> FILE_SAVED: '' @ fname) a8;
                              a10 = toast \<lparr>title = ''DOWNLOAD.SUCCESS'',
                                           description = fname @ '' downloaded successfully'',
                                           destructive = False\<rparr> a9
                          in (None, a10))))"

text \<open>The \<open>catch\<close> block of \<open>handleDownload\<close> (lines 151 to 163), for the message caught.\<close>

definition catchBlock :: "env \<Rightarrow> string \<Rightarrow> app \<Rightarrow> app" where
  "catchBlock e m a =
     (let b1 = addConsoleLine e (''> ERROR: '' @ m) a;
          b2 = setDownloadState (mkState Error 0 (''ERROR: '' @ m)) b1
      in toast \<lparr>title = ''ERROR.DOWNLOAD_FAILED'',
                description = (if m = [] then ''Failed to process download request'' else m),
                destructive = True\<rparr> b2)"

text \<open>Lines 82 to 84 of \<open>handleDownload\<close>: what it does before the \<open>try\<close> block.\<close>

definition beginDownload :: "env \<Rightarrow> app \<Rightarrow> app" where
  "beginDownload e a =
     (let b1 = setDownloadState (mkState Processing 0 ''INITIALIZING_CONNECTION...'') a;
          b2 = addConsoleLine e
                 (''> INIT '' @ toUpperCase (platformStr (platform a)) @ '' ''
                    @ toUpperCase (typeStr (downloadType a)) @ '' PROTOCOL'') b1
      in addConsoleLine e
           (''> TARGET: '' @ take 50 (inputValue a)
              @ (if length (inputValue a) > 50 then ''...'' else [])) b2)"

definition handleDownload :: "env \<Rightarrow> app \<Rightarrow> app" where
  "handleDownload e a =
     (case validateInput a of
        (False, a') \<Rightarrow> a'
      | (True, a') \<Rightarrow>
          (case tryBlock e (beginDownload e a') of
             (None, c) \<Rightarrow> c
           | (Some m, c) \<Rightarrow> catchBlock e m c))"

definition resetState :: "app \<Rightarrow> app" where
  "resetState a =
     (setDownloadState (mkState Idle 0 []) a)\<lparr>inputValue := [], consoleLines := []\<rparr>"

subsection \<open>The other handlers, and runs of the component\<close>

text \<open>The \<open>onValueChange\<close> of the platform tabs (lines 188 to 193).\<close>

definition onPlatformChange :: "Platform \<Rightarrow> app \<Rightarrow> app" where
  "onPlatformChange v a =
     (let b = a\<lparr>platform := v\<rparr>
      in if v = Youtube \<and> downloadType a = Search then b\<lparr>downloadType := Video\<rparr> else b)"

datatype event =
    SelectPlatform Platform
  | SelectType DownloadType
  | EditInput string
  | ClickDownload env
  | ClickReset

fun handle :: "app \<Rightarrow> event \<Rightarrow> app" where
  "handle a (SelectPlatform v) = onPlatformChange v a"
| "handle a (SelectType t) = a\<lparr>downloadType := t\<rparr>"
| "handle a (EditInput s) = a\<lparr>inputValue := s\<rparr>"
| "handle a (ClickDownload e) = handleDownload e a"
| "handle a ClickReset = resetState a"

text \<open>
  The state after a sequence of user actions, each run to its end. A handler is applied
  whether or not the page shows or enables its control at that moment, so these runs
  include every run of the page in which no action falls into a pending submission.
\<close>

definition run :: "event list \<Rightarrow> app" where
  "run evs = foldl handle initApp evs"

text \<open>The states that one call of a handler has added to the history.\<close>

definition emitted :: "app \<Rightarrow> app \<Rightarrow> DownloadState list" where
  "emitted before after = drop (length (history before)) (history after)"

text \<open>The invariant that the specification states for a download state.\<close>

definition stateInv :: "DownloadState \<Rightarrow> bool" where
  "stateInv s \<longleftrightarrow>
     (status s = Idle \<longrightarrow> progress s = 0) \<and>
     (status s = Complete \<longrightarrow> filename s \<noteq> None) \<and>
     (status s = Error \<longrightarrow> progress s = 0)"

text \<open>Whether a text mentions a word, whatever the case of its letters.\<close>

definition mentions :: "string \<Rightarrow> string \<Rightarrow> bool" where
  "mentions s w = includesStr (toUpperCase s) (toUpperCase w)"

subsection \<open>Concrete inputs\<close>

text \<open>
  A clock that always shows noon, the epoch time 1700000000000, a server that answers
  every request with the response \<open>r\<close>, and the text of the TypeError in V8.
\<close>

definition serverEnv :: "response \<Rightarrow> env" where
  "serverEnv r =
     \<lparr>clock = (\<lambda>k. ''12:00:00''), now = 1700000000000, fetch = (\<lambda>u b. Inr r),
      typeErrorMessage = ''Cannot convert object to primitive value''\<rparr>"

text \<open>The header \<^verbatim>\<open>attachment; filename="clip.mp4"\<close>.\<close>

definition clipHeader :: string where
  "clipHeader = ''attachment; filename='' @ [CHR 0x22] @ ''clip.mp4'' @ [CHR 0x22]"

text \<open>A response of status 200 with that header and a body of 2 MB.\<close>

definition clipResponse :: response where
  "clipResponse =
     \<lparr>resp_status = 200, json_body = None, contentDisposition = Some clipHeader,
      blob = Inr 2097152\<rparr>"

text \<open>A response of status 200 with that header and a body of 500 bytes.\<close>

definition tinyResponse :: response where
  "tinyResponse =
     \<lparr>resp_status = 200, json_body = None, contentDisposition = Some clipHeader,
      blob = Inr 500\<rparr>"

text \<open>A response of status 500 with the body \<^verbatim>\<open>{"message":"rate limited"}\<close>.\<close>

definition rateLimitedResponse :: response where
  "rateLimitedResponse =
     \<lparr>resp_status = 500, json_body = Some (JObj [(''message'', JStr ''rate limited'')]),
      contentDisposition = None, blob = Inr 26\<rparr>"

text \<open>A response of status 500 with the body \<^verbatim>\<open>{"message":{"toString":1}}\<close>.\<close>

definition unprintableResponse :: response where
  "unprintableResponse =
     \<lparr>resp_status = 500, json_body = Some (JObj [(''message'', JObj [(''toString'', JNum ''1'')])]),
      contentDisposition = None, blob = Inr 26\<rparr>"

text \<open>A response of status 500 with the body \<^verbatim>\<open>{}\<close>.\<close>

definition emptyObjectResponse :: response where
  "emptyObjectResponse =
     \<lparr>resp_status = 500, json_body = Some (JObj []), contentDisposition = None,
      blob = Inr 2\<rparr>"

text \<open>The page with a YouTube address typed in, and with a blank typed in a TikTok search.\<close>

definition youtubeApp :: app where
  "youtubeApp = initApp\<lparr>inputValue := ''https://youtu.be/abc''\<rparr>"

definition blankSearchApp :: app where
  "blankSearchApp = initApp\<lparr>platform := Tiktok, downloadType := Search, inputValue := '' ''\<rparr>"

definition elevenLines :: "string list" where
  "elevenLines = map digits [0..<11]"

text \<open>
  A session: the user types a YouTube address, downloads the clip, and resets the page.
\<close>

definition sessionEvents :: "event list" where
  "sessionEvents =
     [EditInput ''https://youtu.be/abc'', ClickDownload (serverEnv clipResponse), ClickReset]"

text \<open>
  The same page as \<open>youtubeApp\<close> after an earlier download: the old state is complete
  and has a file name, and the console has a line.
\<close>

definition usedApp :: app where
  "usedApp =
     youtubeApp\<lparr>downloadState :=
                  (mkState Complete 100 ''DOWNLOAD.COMPLETE'')\<lparr>filename := Some ''old.mp4''\<rparr>,
                consoleLines := [''[11:59:00] > FILE_SAVED: old.mp4'']\<rparr>"

section \<open>Properties\<close>

subsection \<open>The console keeps the latest lines\<close>

lemma length_sliceLast: "length (sliceLast n xs) \<le> n"
  by (simp add: sliceLast_def)

lemma sliceLast_snoc: "sliceLast (Suc n) (xs @ [y]) = sliceLast n xs @ [y]"
  by (simp add: sliceLast_def)

lemma sliceLast_sliceLast:
  assumes "m \<le> n"
  shows "sliceLast m (sliceLast n xs) = sliceLast m xs"
proof -
  have "length xs - (length xs - n + m) + (length xs - n) = length xs - m"
    using assms by arith
  then show ?thesis by (simp add: sliceLast_def)
qed

lemma addConsoleLines_snoc:
  "addConsoleLines e (ls @ [l]) a = addConsoleLine e l (addConsoleLines e ls a)"
  by (simp add: addConsoleLines_def)

lemma clockReads_addConsoleLines:
  "clockReads (addConsoleLines e ls a) = clockReads a + length ls"
  by (induction ls rule: rev_induct) (simp_all add: addConsoleLines_def addConsoleLine_def)

lemma consoleLines_closed:
  "consoleLines (addConsoleLines e ls initApp) =
     sliceLast 11 (map (\<lambda>(k, l). consoleEntry (clock e k) l) (enumerate 0 ls))"
proof (induction ls rule: rev_induct)
  case Nil
  show ?case by (simp add: addConsoleLines_def initApp_def sliceLast_def)
next
  case (snoc l ls)
  have c: "clockReads (addConsoleLines e ls initApp) = length ls"
    by (simp add: clockReads_addConsoleLines initApp_def)
  have "sliceLast 11 (xs @ [y]) = sliceLast 10 xs @ [y]" for xs :: "string list" and y
    using sliceLast_snoc [of 10 xs y] by simp
  then show ?case
    using snoc c
    by (simp add: addConsoleLines_snoc addConsoleLine_def consoleUpdater_def
        enumerate_append_eq sliceLast_sliceLast)
qed

subsection \<open>Substrings and trimming\<close>

lemma startsWith_append: "startsWith (p @ r) p"
  by (induction p) simp_all

lemma startsWith_iff: "startsWith s p \<longleftrightarrow> (\<exists>r. s = p @ r)"
  by (induction s p rule: startsWith.induct) auto

lemma includesStr_Nil: "includesStr s []"
  by (cases s) simp_all

lemma includesStr_append_left: "includesStr ys sub \<Longrightarrow> includesStr (xs @ ys) sub"
  by (induction xs) simp_all

lemma includesStr_iff: "includesStr s sub \<longleftrightarrow> (\<exists>pre post. s = pre @ sub @ post)"
proof (induction s)
  case Nil
  show ?case by auto
next
  case (Cons c cs)
  show ?case
  proof
    assume "includesStr (c # cs) sub"
    then consider "startsWith (c # cs) sub" | "includesStr cs sub" by auto
    then show "\<exists>pre post. c # cs = pre @ sub @ post"
    proof cases
      case 1
      then obtain r where "c # cs = sub @ r" by (auto simp: startsWith_iff)
      then have "c # cs = [] @ sub @ r" by simp
      then show ?thesis by blast
    next
      case 2
      then obtain pre post where "cs = pre @ sub @ post" using Cons by auto
      then have "c # cs = (c # pre) @ sub @ post" by simp
      then show ?thesis by blast
    qed
  next
    assume "\<exists>pre post. c # cs = pre @ sub @ post"
    then obtain pre post where eq: "c # cs = pre @ sub @ post" by blast
    show "includesStr (c # cs) sub"
    proof (cases pre)
      case Nil
      then have "startsWith (c # cs) sub" using eq by (auto simp: startsWith_iff)
      then show ?thesis by simp
    next
      case (Cons d pre')
      then have "cs = pre' @ sub @ post" using eq by simp
      then have "includesStr cs sub" using Cons.IH by blast
      then show ?thesis by simp
    qed
  qed
qed

lemma includesStr_single: "includesStr s [c] \<longleftrightarrow> c \<in> set s"
  by (induction s) auto

lemma dropWhile_all: "(\<forall>x\<in>set (dropWhile P s). P x) \<longleftrightarrow> (\<forall>x\<in>set s. P x)"
proof
  assume a: "\<forall>x\<in>set (dropWhile P s). P x"
  have "dropWhile P s = []"
  proof (rule ccontr)
    assume n: "dropWhile P s \<noteq> []"
    then have "\<not> P (hd (dropWhile P s))" by (rule hd_dropWhile)
    moreover have "hd (dropWhile P s) \<in> set (dropWhile P s)" using n by simp
    ultimately show False using a by blast
  qed
  then show "\<forall>x\<in>set s. P x" by (simp add: dropWhile_eq_Nil_conv)
next
  assume "\<forall>x\<in>set s. P x"
  then show "\<forall>x\<in>set (dropWhile P s). P x" by (auto dest: set_dropWhileD)
qed

lemma trim_Nil_iff: "trim s = [] \<longleftrightarrow> (\<forall>c\<in>set s. isWhiteSpace c)"
  by (simp add: trim_def dropWhile_eq_Nil_conv dropWhile_all)

lemma mentions_file_saved: "mentions (consoleEntry ts (''> FILE_SAVED: '' @ f)) ''file_saved''"
proof -
  have 1: "toUpperCase ''file_saved'' = ''FILE_SAVED''"
    by (simp add: toUpperCase_def upperChar_def char_of_def bit_Suc_0_iff)
  have 2: "toUpperCase (consoleEntry ts (''> FILE_SAVED: '' @ f)) =
             toUpperCase (''['' @ ts @ ''] > '') @ ''FILE_SAVED'' @ toUpperCase ('': '' @ f)"
    by (simp add: toUpperCase_def upperChar_def consoleEntry_def char_of_def bit_Suc_0_iff)
  show ?thesis unfolding mentions_def 1 2 includesStr_iff by blast
qed

subsection \<open>File names\<close>

lemma digit_ne_dot: "d < 10 \<Longrightarrow> digit d \<noteq> CHR ''.''"
proof
  assume d: "d < 10" and "digit d = CHR ''.''"
  then have "(of_char (digit d) :: nat) = of_char (CHR ''.'')" by simp
  then show False using d by (simp add: digit_def)
qed

lemma dot_notin_digits: "CHR ''.'' \<notin> set (digits n)"
proof (induction n rule: digits.induct)
  case (1 n)
  show ?case
  proof (cases "n < 10")
    case True
    then show ?thesis using digit_ne_dot [of n] by (simp add: digits.simps [of n])
  next
    case False
    then show ?thesis
      using 1 digit_ne_dot [of "n mod 10"] by (simp add: digits.simps [of n])
  qed
qed

lemma digits_ne_Nil: "digits n \<noteq> []"
  by (simp add: digits.simps [of n])

lemma matchAt_ne_Nil: "matchAt s = Some g \<Longrightarrow> g \<noteq> []"
  by (auto simp: matchAt_def Let_def split: if_splits)

lemma matchFilename_ne_Nil: "matchFilename h = Some g \<Longrightarrow> g \<noteq> []"
  by (induction h) (auto split: option.splits dest: matchAt_ne_Nil)

lemma dispositionName_ne_Nil: "dispositionName cd = Some g \<Longrightarrow> g \<noteq> []"
  by (auto simp: dispositionName_def split: option.splits if_splits dest: matchFilename_ne_Nil)

lemma synthesized_no_dot:
  "CHR ''.'' \<notin> set (platformStr p @ ''_'' @ typeStr t @ ''_'' @ showInt ms)"
  by (cases p; cases t) (simp_all add: platformStr_def typeStr_def showInt_def dot_notin_digits)

subsection \<open>The steps of a submission\<close>

lemma validate_pass: "fst (validateInput a) \<Longrightarrow> validateInput a = (True, a)"
  by (auto simp: validateInput_def split: if_splits)

lemma validate_fail: "\<not> fst (validateInput a) \<Longrightarrow> \<exists>t. validateInput a = (False, toast t a)"
  by (auto simp: validateInput_def split: if_splits)

lemma addConsoleLine_fields [simp]:
  "platform (addConsoleLine e l a) = platform a"
  "downloadType (addConsoleLine e l a) = downloadType a"
  "inputValue (addConsoleLine e l a) = inputValue a"
  "downloadState (addConsoleLine e l a) = downloadState a"
  "toasts (addConsoleLine e l a) = toasts a"
  "history (addConsoleLine e l a) = history a"
  "clockReads (addConsoleLine e l a) = clockReads a + 1"
  "consoleLines (addConsoleLine e l a) =
     sliceLast 10 (consoleLines a) @ [consoleEntry (clock e (clockReads a)) l]"
  by (simp_all add: addConsoleLine_def consoleUpdater_def)

lemma setDownloadState_fields [simp]:
  "platform (setDownloadState s a) = platform a"
  "downloadType (setDownloadState s a) = downloadType a"
  "inputValue (setDownloadState s a) = inputValue a"
  "downloadState (setDownloadState s a) = s"
  "toasts (setDownloadState s a) = toasts a"
  "history (setDownloadState s a) = history a @ [s]"
  "clockReads (setDownloadState s a) = clockReads a"
  "consoleLines (setDownloadState s a) = consoleLines a"
  by (simp_all add: setDownloadState_def)

lemma toast_fields [simp]:
  "platform (toast t a) = platform a"
  "downloadType (toast t a) = downloadType a"
  "inputValue (toast t a) = inputValue a"
  "downloadState (toast t a) = downloadState a"
  "toasts (toast t a) = toasts a @ [t]"
  "history (toast t a) = history a"
  "clockReads (toast t a) = clockReads a"
  "consoleLines (toast t a) = consoleLines a"
  by (simp_all add: toast_def)

lemma beginDownload_fields [simp]:
  "platform (beginDownload e a) = platform a"
  "downloadType (beginDownload e a) = downloadType a"
  "inputValue (beginDownload e a) = inputValue a"
  "downloadState (beginDownload e a) = mkState Processing 0 ''INITIALIZING_CONNECTION...''"
  "toasts (beginDownload e a) = toasts a"
  "history (beginDownload e a) = history a @ [mkState Processing 0 ''INITIALIZING_CONNECTION...'']"
  "clockReads (beginDownload e a) = clockReads a + 2"
  by (simp_all add: beginDownload_def Let_def)

lemma endpoint_begin [simp]: "endpoint (beginDownload e a) = endpoint a"
  by (simp add: endpoint_def)

lemma requestBody_begin [simp]: "requestBody (beginDownload e a) = requestBody a"
  by (simp add: requestBody_def)

lemma catchBlock_fields [simp]:
  "downloadState (catchBlock e m a) = mkState Error 0 (''ERROR: '' @ m)"
  "history (catchBlock e m a) = history a @ [mkState Error 0 (''ERROR: '' @ m)]"
  by (simp_all add: catchBlock_def Let_def)

lemma tryBlock_fetch_rejected:
  assumes "fetch e (endpoint a) (requestBody a) = Inl m"
  shows "fst (tryBlock e a) = Some m"
    and "history (snd (tryBlock e a)) =
           history a @ [mkState Processing 20 ''ESTABLISHING_SECURE_CONNECTION...'']"
  using assms by (simp_all add: tryBlock_def Let_def)

lemma tryBlock_not_ok:
  assumes "fetch e (endpoint a) (requestBody a) = Inr r" and "\<not> ok r"
  shows "fst (tryBlock e a) = Some (errorMessageOf e r)"
    and "history (snd (tryBlock e a)) =
           history a @ [mkState Processing 20 ''ESTABLISHING_SECURE_CONNECTION...'']"
  using assms by (simp_all add: tryBlock_def Let_def)

lemma tryBlock_blob_rejected:
  assumes "fetch e (endpoint a) (requestBody a) = Inr r" and "ok r" and "blob r = Inl m"
  shows "fst (tryBlock e a) = Some m"
    and "history (snd (tryBlock e a)) =
           history a @ [mkState Processing 20 ''ESTABLISHING_SECURE_CONNECTION...'',
                        mkState Downloading 50 ''EXTRACTING_MEDIA_STREAM...'',
                        mkState Downloading 70 ''STREAMING_DATA...'']"
  using assms by (simp_all add: tryBlock_def Let_def)

lemma tryBlock_too_small:
  assumes "fetch e (endpoint a) (requestBody a) = Inr r" and "ok r"
      and "blob r = Inr sz" and "sz < 1024"
  shows "fst (tryBlock e a) = Some ''Downloaded file is too small - may be invalid''"
    and "history (snd (tryBlock e a)) =
           history a @ [mkState Processing 20 ''ESTABLISHING_SECURE_CONNECTION...'',
                        mkState Downloading 50 ''EXTRACTING_MEDIA_STREAM...'',
                        mkState Downloading 70 ''STREAMING_DATA...'']"
  using assms by (simp_all add: tryBlock_def Let_def)

lemma tryBlock_success:
  assumes "fetch e (endpoint a) (requestBody a) = Inr r" and "ok r"
      and "blob r = Inr sz" and "1024 \<le> sz"
  shows "fst (tryBlock e a) = None"
    and "history (snd (tryBlock e a)) =
           history a @ [mkState Processing 20 ''ESTABLISHING_SECURE_CONNECTION...'',
                        mkState Downloading 50 ''EXTRACTING_MEDIA_STREAM...'',
                        mkState Downloading 70 ''STREAMING_DATA...'',
                        (mkState Complete 100 ''DOWNLOAD.COMPLETE'')
                          \<lparr>filename := Some (resolveFilename (platform a) (downloadType a)
                                               (now e) (contentDisposition r))\<rparr>]"
    and "downloadState (snd (tryBlock e a)) =
           (mkState Complete 100 ''DOWNLOAD.COMPLETE'')
             \<lparr>filename := Some (resolveFilename (platform a) (downloadType a)
                                  (now e) (contentDisposition r))\<rparr>"
    and "last (consoleLines (snd (tryBlock e a))) =
           consoleEntry (clock e (clockReads a + 4))
             (''> FILE_SAVED: '' @ resolveFilename (platform a) (downloadType a)
                                    (now e) (contentDisposition r))"
proof -
  have n: "clockReads a + 4 = Suc (Suc (Suc (Suc (clockReads a))))" by simp
  show "fst (tryBlock e a) = None"
    and "history (snd (tryBlock e a)) =
           history a @ [mkState Processing 20 ''ESTABLISHING_SECURE_CONNECTION...'',
                        mkState Downloading 50 ''EXTRACTING_MEDIA_STREAM...'',
                        mkState Downloading 70 ''STREAMING_DATA...'',
                        (mkState Complete 100 ''DOWNLOAD.COMPLETE'')
                          \<lparr>filename := Some (resolveFilename (platform a) (downloadType a)
                                               (now e) (contentDisposition r))\<rparr>]"
    and "downloadState (snd (tryBlock e a)) =
           (mkState Complete 100 ''DOWNLOAD.COMPLETE'')
             \<lparr>filename := Some (resolveFilename (platform a) (downloadType a)
                                  (now e) (contentDisposition r))\<rparr>"
    and "last (consoleLines (snd (tryBlock e a))) =
           consoleEntry (clock e (clockReads a + 4))
             (''> FILE_SAVED: '' @ resolveFilename (platform a) (downloadType a)
                                    (now e) (contentDisposition r))"
    unfolding n using assms by (simp_all add: tryBlock_def Let_def)
qed

lemma handleDownload_pass:
  assumes "fst (validateInput a)"
  shows "handleDownload e a =
           (case fst (tryBlock e (beginDownload e a)) of
              None \<Rightarrow> snd (tryBlock e (beginDownload e a))
            | Some m \<Rightarrow> catchBlock e m (snd (tryBlock e (beginDownload e a))))"
  using validate_pass [OF assms]
  by (simp add: handleDownload_def split: prod.splits option.splits)

lemma mkState_fields [simp]:
  "status (mkState st p m) = st"
  "progress (mkState st p m) = p"
  "message (mkState st p m) = m"
  "downloadUrl (mkState st p m) = None"
  "filename (mkState st p m) = None"
  by (simp_all add: mkState_def)

lemma stateInv_mkState [simp]:
  "stateInv (mkState Processing p m)"
  "stateInv (mkState Downloading p m)"
  "stateInv (mkState Error 0 m)"
  "stateInv (mkState Idle 0 m)"
  "stateInv ((mkState Complete p m)\<lparr>filename := Some f\<rparr>)"
  by (simp_all add: stateInv_def)

lemma tryBlock_history:
  "\<exists>xs. history (snd (tryBlock e a)) = history a @ xs \<and> (\<forall>s\<in>set xs. stateInv s \<and> downloadUrl s = None)"
proof (cases "fetch e (endpoint a) (requestBody a)")
  case (Inl m)
  show ?thesis using tryBlock_fetch_rejected(2) [OF Inl] by simp
next
  case (Inr r)
  show ?thesis
  proof (cases "ok r")
    case False
    show ?thesis using tryBlock_not_ok(2) [OF Inr False] by simp
  next
    case True
    show ?thesis
    proof (cases "blob r")
      case (Inl m)
      show ?thesis using tryBlock_blob_rejected(2) [OF Inr True Inl] by simp
    next
      case b: (Inr sz)
      show ?thesis
      proof (cases "sz < 1024")
        case True
        show ?thesis using tryBlock_too_small(2) [OF Inr \<open>ok r\<close> b True] by simp
      next
        case False
        then have "1024 \<le> sz" by simp
        then show ?thesis using tryBlock_success(2) [OF Inr True b] by simp
      qed
    qed
  qed
qed

lemma tryBlock_None_state:
  assumes "fst (tryBlock e a) = None"
  shows "downloadState (snd (tryBlock e a)) = last (history (snd (tryBlock e a)))"
proof (cases "fetch e (endpoint a) (requestBody a)")
  case (Inl m)
  show ?thesis using tryBlock_fetch_rejected(1) [OF Inl] assms by simp
next
  case (Inr r)
  show ?thesis
  proof (cases "ok r")
    case False
    show ?thesis using tryBlock_not_ok(1) [OF Inr False] assms by simp
  next
    case True
    show ?thesis
    proof (cases "blob r")
      case (Inl m)
      show ?thesis using tryBlock_blob_rejected(1) [OF Inr True Inl] assms by simp
    next
      case b: (Inr sz)
      show ?thesis
      proof (cases "sz < 1024")
        case True
        show ?thesis using tryBlock_too_small(1) [OF Inr \<open>ok r\<close> b True] assms by simp
      next
        case False
        then have "1024 \<le> sz" by simp
        then show ?thesis
          using tryBlock_success(2,3) [OF Inr True b] by simp
      qed
    qed
  qed
qed

lemma handleDownload_history:
  "\<exists>xs. history (handleDownload e a) = history a @ xs \<and> (\<forall>s\<in>set xs. stateInv s \<and> downloadUrl s = None) \<and>
        downloadState (handleDownload e a) = last (downloadState a # xs)"
proof (cases "fst (validateInput a)")
  case False
  then obtain t where "validateInput a = (False, toast t a)"
    using validate_fail by blast
  then have "handleDownload e a = toast t a" by (simp add: handleDownload_def)
  then show ?thesis by simp
next
  case True
  let ?b = "beginDownload e a"
  obtain xs where xs: "history (snd (tryBlock e ?b)) = history ?b @ xs" "\<forall>s\<in>set xs. stateInv s \<and> downloadUrl s = None"
    using tryBlock_history by blast
  show ?thesis
  proof (cases "fst (tryBlock e ?b)")
    case None
    then have h: "handleDownload e a = snd (tryBlock e ?b)"
      using handleDownload_pass [OF True, of e] by simp
    have "downloadState (handleDownload e a) = last (history (handleDownload e a))"
      using tryBlock_None_state [OF None] h by simp
    then show ?thesis using xs h by simp
  next
    case (Some m)
    then have h: "handleDownload e a = catchBlock e m (snd (tryBlock e ?b))"
      using handleDownload_pass [OF True, of e] by simp
    show ?thesis using xs h by simp
  qed
qed

subsection \<open>Runs of the page\<close>

text \<open>
  Every handler adds states that satisfy the invariant and have no download URL, and
  the current state is the last one set.
\<close>

lemma run_snoc: "run (evs @ [ev]) = handle (run evs) ev"
  by (simp add: run_def)

lemma resetState_fields [simp]:
  "downloadState (resetState a) = mkState Idle 0 []"
  "history (resetState a) = history a @ [mkState Idle 0 []]"
  by (simp_all add: resetState_def)

lemma handle_history:
  "\<exists>xs. history (handle a ev) = history a @ xs \<and>
        (\<forall>s\<in>set xs. stateInv s \<and> downloadUrl s = None) \<and>
        downloadState (handle a ev) = last (downloadState a # xs)"
proof (cases ev)
  case (SelectPlatform v)
  then show ?thesis by (simp add: onPlatformChange_def Let_def)
next
  case (SelectType t)
  then show ?thesis by simp
next
  case (EditInput s)
  then show ?thesis by simp
next
  case (ClickDownload e)
  then show ?thesis using handleDownload_history [of e a] by simp
next
  case ClickReset
  then show ?thesis by simp
qed

lemma run_invariant:
  "history (run evs) \<noteq> [] \<and> downloadState (run evs) = last (history (run evs)) \<and>
   (\<forall>s\<in>set (history (run evs)). stateInv s \<and> downloadUrl s = None)"
proof (induction evs rule: rev_induct)
  case Nil
  show ?case by (simp add: run_def initApp_def)
next
  case (snoc ev evs)
  obtain xs where xs: "history (handle (run evs) ev) = history (run evs) @ xs"
      "\<forall>s\<in>set xs. stateInv s \<and> downloadUrl s = None"
      "downloadState (handle (run evs) ev) = last (downloadState (run evs) # xs)"
    using handle_history by blast
  show ?case
  proof (cases "xs = []")
    case True
    then show ?thesis using snoc xs by (simp add: run_snoc)
  next
    case False
    then show ?thesis using snoc xs by (auto simp: run_snoc)
  qed
qed

text \<open>
  The states that a submission sets depend on the platform, the type and the input text
  only, not on the rest of the page's state.
\<close>

lemma tryBlock_emitted:
  "history (snd (tryBlock e a)) = history a @ emitted a (snd (tryBlock e a))"
proof -
  obtain xs where "history (snd (tryBlock e a)) = history a @ xs"
    using tryBlock_history by blast
  then show ?thesis by (simp add: emitted_def)
qed

lemma tryBlock_selection:
  assumes "platform a = platform b" and "downloadType a = downloadType b"
      and "inputValue a = inputValue b"
  shows "fst (tryBlock e a) = fst (tryBlock e b) \<and>
         emitted a (snd (tryBlock e a)) = emitted b (snd (tryBlock e b))"
proof -
  have ep: "endpoint b = endpoint a" "requestBody b = requestBody a"
    using assms by (simp_all add: endpoint_def requestBody_def)
  show ?thesis
  proof (cases "fetch e (endpoint a) (requestBody a)")
    case (Inl m)
    then have fb: "fetch e (endpoint b) (requestBody b) = Inl m" by (simp add: ep)
    show ?thesis
      using tryBlock_fetch_rejected [OF Inl] tryBlock_fetch_rejected [OF fb]
      by (simp add: emitted_def)
  next
    case (Inr r)
    then have fb: "fetch e (endpoint b) (requestBody b) = Inr r" by (simp add: ep)
    show ?thesis
    proof (cases "ok r")
      case False
      show ?thesis
        using tryBlock_not_ok [OF Inr False] tryBlock_not_ok [OF fb False]
        by (simp add: emitted_def)
    next
      case True
      show ?thesis
      proof (cases "blob r")
        case (Inl m)
        show ?thesis
          using tryBlock_blob_rejected [OF Inr True Inl] tryBlock_blob_rejected [OF fb True Inl]
          by (simp add: emitted_def)
      next
        case bl: (Inr sz)
        show ?thesis
        proof (cases "sz < 1024")
          case True
          show ?thesis
            using tryBlock_too_small [OF Inr \<open>ok r\<close> bl True]
              tryBlock_too_small [OF fb \<open>ok r\<close> bl True]
            by (simp add: emitted_def)
        next
          case False
          then have big: "1024 \<le> sz" by simp
          show ?thesis
            using tryBlock_success(1,2) [OF Inr True bl big]
              tryBlock_success(1,2) [OF fb True bl big] assms
            by (simp add: emitted_def)
        qed
      qed
    qed
  qed
qed

lemma validate_selection:
  assumes "platform a = platform b" and "downloadType a = downloadType b"
      and "inputValue a = inputValue b"
  shows "fst (validateInput a) = fst (validateInput b)"
  using assms by (simp add: validateInput_def)

lemma handleDownload_emitted:
  "emitted a (handleDownload e a) =
     (if fst (validateInput a) then
        mkState Processing 0 ''INITIALIZING_CONNECTION...''
          # emitted (beginDownload e a) (snd (tryBlock e (beginDownload e a)))
          @ (case fst (tryBlock e (beginDownload e a)) of
               None \<Rightarrow> []
             | Some m \<Rightarrow> [mkState Error 0 (''ERROR: '' @ m)])
      else [])"
proof (cases "fst (validateInput a)")
  case False
  then obtain t where "validateInput a = (False, toast t a)"
    using validate_fail by blast
  then have "handleDownload e a = toast t a" by (simp add: handleDownload_def)
  then show ?thesis using False by (simp add: emitted_def)
next
  case True
  let ?b = "beginDownload e a"
  note h = handleDownload_pass [OF True, of e]
  obtain xs where xs: "history (snd (tryBlock e ?b)) = history ?b @ xs"
    using tryBlock_history by blast
  have em: "emitted ?b (snd (tryBlock e ?b)) = xs"
    using xs by (simp add: emitted_def)
  have t: "history (snd (tryBlock e ?b)) =
             history a @ mkState Processing 0 ''INITIALIZING_CONNECTION...'' # xs"
    using xs by simp
  show ?thesis
  proof (cases "fst (tryBlock e ?b)")
    case None
    then have "history (handleDownload e a) =
                 history a @ mkState Processing 0 ''INITIALIZING_CONNECTION...'' # xs"
      using h t by simp
    then have "emitted a (handleDownload e a) =
                 mkState Processing 0 ''INITIALIZING_CONNECTION...'' # xs"
      by (simp add: emitted_def)
    then show ?thesis unfolding em using True None by simp
  next
    case (Some m)
    then have "history (handleDownload e a) =
                 history a @ mkState Processing 0 ''INITIALIZING_CONNECTION...'' # xs
                   @ [mkState Error 0 (''ERROR: '' @ m)]"
      using h t by simp
    then have "emitted a (handleDownload e a) =
                 mkState Processing 0 ''INITIALIZING_CONNECTION...'' # xs
                   @ [mkState Error 0 (''ERROR: '' @ m)]"
      by (simp add: emitted_def)
    then show ?thesis unfolding em using True Some by simp
  qed
qed

lemma emitted_independent:
  assumes "platform a = platform b" and "downloadType a = downloadType b"
      and "inputValue a = inputValue b"
  shows "emitted a (handleDownload e a) = emitted b (handleDownload e b)"
proof -
  have "fst (tryBlock e (beginDownload e a)) = fst (tryBlock e (beginDownload e b)) \<and>
        emitted (beginDownload e a) (snd (tryBlock e (beginDownload e a))) =
        emitted (beginDownload e b) (snd (tryBlock e (beginDownload e b)))"
    using assms by (intro tryBlock_selection) simp_all
  then show ?thesis
    unfolding handleDownload_emitted using validate_selection [OF assms] by simp
qed

subsection \<open>The concrete inputs\<close>

lemma clip_header_name: "dispositionName (Some clipHeader) = Some ''clip.mp4''"
  by (simp add: dispositionName_def clipHeader_def matchAt_def nameChar_def)

lemma clip_filename: "resolveFilename Youtube Video n (Some clipHeader) = ''clip.mp4''"
  by (simp add: resolveFilename_def clip_header_name)

lemma youtubeApp_valid: "fst (validateInput youtubeApp)"
  by (simp add: validateInput_def youtubeApp_def initApp_def trim_def isWhiteSpace_def)

lemma digit_values:
  "digit 0 = CHR ''0''" "digit 5 = CHR ''5''"
  by (simp_all add: digit_def char_of_def bit_Suc_0_iff)

lemma session_states:
  "map status (history (run sessionEvents)) =
     [Idle, Processing, Processing, Downloading, Downloading, Complete, Idle]"
  "map filename (history (run sessionEvents)) =
     [None, None, None, None, None, Some ''clip.mp4'', None]"
proof -
  let ?e = "serverEnv clipResponse"
  let ?b = "beginDownload ?e youtubeApp"
  have f: "fetch ?e (endpoint ?b) (requestBody ?b) = Inr clipResponse"
    by (simp add: serverEnv_def)
  have o: "ok clipResponse" by (simp add: ok_def clipResponse_def)
  have bl: "blob clipResponse = Inr 2097152" by (simp add: clipResponse_def)
  have big: "(1024 :: nat) \<le> 2097152" by simp
  note t = tryBlock_success [OF f o bl big]
  have h: "handleDownload ?e youtubeApp = snd (tryBlock ?e ?b)"
    using handleDownload_pass [OF youtubeApp_valid, of ?e] t(1) by simp
  have n: "resolveFilename (platform ?b) (downloadType ?b) (now ?e) (contentDisposition clipResponse)
             = ''clip.mp4''"
    by (simp add: youtubeApp_def initApp_def clipResponse_def clip_filename)
  have r: "run sessionEvents = resetState (handleDownload ?e youtubeApp)"
    by (simp add: run_def sessionEvents_def youtubeApp_def)
  have hist: "history (run sessionEvents) =
     history youtubeApp @
       [mkState Processing 0 ''INITIALIZING_CONNECTION...'',
        mkState Processing 20 ''ESTABLISHING_SECURE_CONNECTION...'',
        mkState Downloading 50 ''EXTRACTING_MEDIA_STREAM...'',
        mkState Downloading 70 ''STREAMING_DATA...'',
        (mkState Complete 100 ''DOWNLOAD.COMPLETE'')\<lparr>filename := Some ''clip.mp4''\<rparr>,
        mkState Idle 0 []]"
    using t(2) unfolding r n by (simp add: h)
  show "map status (history (run sessionEvents)) =
     [Idle, Processing, Processing, Downloading, Downloading, Complete, Idle]"
    unfolding hist by (simp add: youtubeApp_def initApp_def)
  show "map filename (history (run sessionEvents)) =
     [None, None, None, None, None, Some ''clip.mp4'', None]"
    unfolding hist by (simp add: youtubeApp_def initApp_def)
qed

section \<open>The claims\<close>

subsection \<open>C1: the size of the console log\<close>

text \<open>
  C1, as amended. After a call of \<open>addConsoleLine\<close> the log holds at most 11 entries:
  the call keeps the last 10 entries of the log it finds and puts the new one behind
  them. Starting from the empty log, the log after any sequence of calls is the last 11
  of all the entries written, in the order they were written; and a call on a log of 11
  entries drops the oldest one.
\<close>

theorem console_keeps_latest_eleven:
  "length (consoleLines (addConsoleLine e l a)) \<le> 11 \<and>
   length (consoleLines (addConsoleLines e ls initApp)) \<le> 11 \<and>
   consoleLines (addConsoleLines e ls initApp) =
     sliceLast 11 (map (\<lambda>(k, l). consoleEntry (clock e k) l) (enumerate 0 ls)) \<and>
   (length (consoleLines a) = 11 \<longrightarrow>
      consoleLines (addConsoleLine e l a) =
        tl (consoleLines a) @ [consoleEntry (clock e (clockReads a)) l])"
proof -
  have "length (sliceLast 10 (consoleLines a)) \<le> 10" by (rule length_sliceLast)
  then have 1: "length (consoleLines (addConsoleLine e l a)) \<le> 11" by simp
  have 3: "consoleLines (addConsoleLines e ls initApp) =
     sliceLast 11 (map (\<lambda>(k, l). consoleEntry (clock e k) l) (enumerate 0 ls))"
    by (rule consoleLines_closed)
  have 2: "length (consoleLines (addConsoleLines e ls initApp)) \<le> 11"
    unfolding 3 by (rule length_sliceLast)
  have 4: "consoleLines (addConsoleLine e l a) =
        tl (consoleLines a) @ [consoleEntry (clock e (clockReads a)) l]"
    if "length (consoleLines a) = 11"
    using that by (simp add: sliceLast_def drop_Suc)
  show ?thesis using 1 2 3 4 by blast
qed

text \<open>
  C1 as stated does not hold: after eleven calls the log holds eleven entries, not ten.
\<close>

theorem console_exceeds_ten:
  "\<not> length (consoleLines (addConsoleLines (serverEnv clipResponse) elevenLines initApp)) \<le> 10"
  by (simp add: consoleLines_closed elevenLines_def sliceLast_def)

text \<open>The twelfth line pushes the first one out.\<close>

theorem console_keeps_latest_eleven_witness:
  "length (consoleLines (addConsoleLines (serverEnv clipResponse) elevenLines initApp)) = 11 \<and>
   consoleLines (addConsoleLine (serverEnv clipResponse) ''12''
       (addConsoleLines (serverEnv clipResponse) elevenLines initApp)) =
     tl (consoleLines (addConsoleLines (serverEnv clipResponse) elevenLines initApp))
       @ [''[12:00:00] 12'']"
proof -
  let ?a = "addConsoleLines (serverEnv clipResponse) elevenLines initApp"
  have len: "length (consoleLines ?a) = 11"
    by (simp add: consoleLines_closed elevenLines_def sliceLast_def)
  have entry: "consoleEntry (clock (serverEnv clipResponse) (clockReads ?a)) ''12'' = ''[12:00:00] 12''"
    by (simp add: consoleEntry_def serverEnv_def)
  have eq: "consoleLines (addConsoleLine (serverEnv clipResponse) ''12'' ?a) =
      tl (consoleLines ?a) @ [consoleEntry (clock (serverEnv clipResponse) (clockReads ?a)) ''12'']"
    using console_keeps_latest_eleven
      [where e = "serverEnv clipResponse" and l = "''12''" and a = ?a and ls = "[]"] len
    by blast
  show ?thesis unfolding eq entry using len by simp
qed

subsection \<open>C2: a successful download\<close>

text \<open>
  C2. When validation passes, the response is ok and the body has at least 1024 bytes,
  the submission sets the states processing (0), processing (20), downloading (50),
  downloading (70) and complete (100) in this order, and no other; it ends in the state
  complete with progress 100 and the resolved file name; and the last line of the log
  is the line \<open>> FILE_SAVED:\<close> with that name, which mentions \<open>file_saved\<close> when the
  case of the letters is disregarded (the page writes it in capitals).
\<close>

theorem successful_download:
  assumes "fst (validateInput a)"
      and "fetch e (endpoint a) (requestBody a) = Inr r"
      and "ok r"
      and "blob r = Inr sz"
      and "1024 \<le> sz"
  shows "emitted a (handleDownload e a) =
           [mkState Processing 0 ''INITIALIZING_CONNECTION...'',
            mkState Processing 20 ''ESTABLISHING_SECURE_CONNECTION...'',
            mkState Downloading 50 ''EXTRACTING_MEDIA_STREAM...'',
            mkState Downloading 70 ''STREAMING_DATA...'',
            \<lparr>status = Complete, progress = 100, message = ''DOWNLOAD.COMPLETE'',
             downloadUrl = None,
             filename = Some (resolveFilename (platform a) (downloadType a) (now e)
                                (contentDisposition r))\<rparr>] \<and>
         map status (emitted a (handleDownload e a)) =
           [Processing, Processing, Downloading, Downloading, Complete] \<and>
         downloadState (handleDownload e a) =
           \<lparr>status = Complete, progress = 100, message = ''DOWNLOAD.COMPLETE'',
            downloadUrl = None,
            filename = Some (resolveFilename (platform a) (downloadType a) (now e)
                               (contentDisposition r))\<rparr> \<and>
         last (consoleLines (handleDownload e a)) =
           consoleEntry (clock e (clockReads a + 6))
             (''> FILE_SAVED: '' @ resolveFilename (platform a) (downloadType a) (now e)
                                    (contentDisposition r)) \<and>
         mentions (last (consoleLines (handleDownload e a))) ''file_saved''"
proof -
  let ?b = "beginDownload e a"
  have f: "fetch e (endpoint ?b) (requestBody ?b) = Inr r" using assms(2) by simp
  note t = tryBlock_success [OF f assms(3) assms(4) assms(5)]
  have h: "handleDownload e a = snd (tryBlock e ?b)"
    using handleDownload_pass [OF assms(1), of e] t(1) by simp
  have l: "last (consoleLines (handleDownload e a)) =
           consoleEntry (clock e (clockReads a + 6))
             (''> FILE_SAVED: '' @ resolveFilename (platform a) (downloadType a) (now e)
                                    (contentDisposition r))"
    using t(4) h by (simp add: add.commute)
  have m: "mentions (last (consoleLines (handleDownload e a))) ''file_saved''"
    unfolding l by (rule mentions_file_saved)
  have s: "downloadState (handleDownload e a) =
           \<lparr>status = Complete, progress = 100, message = ''DOWNLOAD.COMPLETE'',
            downloadUrl = None,
            filename = Some (resolveFilename (platform a) (downloadType a) (now e)
                               (contentDisposition r))\<rparr>"
    using t(3) h by (simp add: mkState_def)
  have em: "emitted a (handleDownload e a) =
           [mkState Processing 0 ''INITIALIZING_CONNECTION...'',
            mkState Processing 20 ''ESTABLISHING_SECURE_CONNECTION...'',
            mkState Downloading 50 ''EXTRACTING_MEDIA_STREAM...'',
            mkState Downloading 70 ''STREAMING_DATA...'',
            \<lparr>status = Complete, progress = 100, message = ''DOWNLOAD.COMPLETE'',
             downloadUrl = None,
             filename = Some (resolveFilename (platform a) (downloadType a) (now e)
                                (contentDisposition r))\<rparr>]"
    using t(2) h by (simp add: emitted_def mkState_def)
  have st: "map status (emitted a (handleDownload e a)) =
           [Processing, Processing, Downloading, Downloading, Complete]"
    unfolding em by simp
  show ?thesis using em st s l m by blast
qed

text \<open>
  The example of the specification: a video request for YouTube, a body of 2 MB and the
  header \<^verbatim>\<open>filename="clip.mp4"\<close>.
\<close>

theorem successful_download_witness:
  "fst (validateInput youtubeApp) \<and>
   fetch (serverEnv clipResponse) (endpoint youtubeApp) (requestBody youtubeApp) = Inr clipResponse \<and>
   ok clipResponse \<and> blob clipResponse = Inr 2097152 \<and> (1024 :: nat) \<le> 2097152 \<and>
   map status (emitted youtubeApp (handleDownload (serverEnv clipResponse) youtubeApp)) =
     [Processing, Processing, Downloading, Downloading, Complete] \<and>
   downloadState (handleDownload (serverEnv clipResponse) youtubeApp) =
     \<lparr>status = Complete, progress = 100, message = ''DOWNLOAD.COMPLETE'',
      downloadUrl = None, filename = Some ''clip.mp4''\<rparr> \<and>
   last (consoleLines (handleDownload (serverEnv clipResponse) youtubeApp)) =
     ''[12:00:00] > FILE_SAVED: clip.mp4''"
proof -
  have 1: "fetch (serverEnv clipResponse) (endpoint youtubeApp) (requestBody youtubeApp) = Inr clipResponse"
    by (simp add: serverEnv_def)
  have 2: "ok clipResponse" by (simp add: ok_def clipResponse_def)
  have 3: "blob clipResponse = Inr 2097152" by (simp add: clipResponse_def)
  have 4: "(1024 :: nat) \<le> 2097152" by simp
  have 5: "platform youtubeApp = Youtube" "downloadType youtubeApp = Video"
    "contentDisposition clipResponse = Some clipHeader"
    "clock (serverEnv clipResponse) k = ''12:00:00''" for k
    by (simp_all add: youtubeApp_def initApp_def clipResponse_def serverEnv_def)
  show ?thesis
    using successful_download [OF youtubeApp_valid 1 2 3 4] youtubeApp_valid 1 2 3
    by (simp add: 5 clip_filename consoleEntry_def)
qed

subsection \<open>C3: a body that is too small\<close>

text \<open>
  C3. When validation passes, the response is ok and its body, read in full, has fewer
  than 1024 bytes, the submission ends in the state error with progress 0 and the
  message that the downloaded file is too small. The response is arbitrary otherwise, so
  this holds with and without a disposition header.
\<close>

theorem small_body_is_error:
  assumes "fst (validateInput a)"
      and "fetch e (endpoint a) (requestBody a) = Inr r"
      and "ok r"
      and "blob r = Inr sz"
      and "sz < 1024"
  shows "downloadState (handleDownload e a) =
           \<lparr>status = Error, progress = 0,
            message = ''ERROR: Downloaded file is too small - may be invalid'',
            downloadUrl = None, filename = None\<rparr>"
proof -
  let ?b = "beginDownload e a"
  have f: "fetch e (endpoint ?b) (requestBody ?b) = Inr r" using assms(2) by simp
  note t = tryBlock_too_small [OF f assms(3) assms(4) assms(5)]
  have "handleDownload e a =
          catchBlock e ''Downloaded file is too small - may be invalid'' (snd (tryBlock e ?b))"
    using handleDownload_pass [OF assms(1), of e] t(1) by simp
  then show ?thesis by (simp add: mkState_def)
qed

text \<open>A body of 500 bytes under status 200, with the header and without it.\<close>

theorem small_body_is_error_witness:
  "fst (validateInput youtubeApp) \<and>
   ok tinyResponse \<and> blob tinyResponse = Inr 500 \<and> (500 :: nat) < 1024 \<and>
   contentDisposition tinyResponse = Some clipHeader \<and>
   downloadState (handleDownload (serverEnv tinyResponse) youtubeApp) =
     \<lparr>status = Error, progress = 0,
      message = ''ERROR: Downloaded file is too small - may be invalid'',
      downloadUrl = None, filename = None\<rparr> \<and>
   downloadState
     (handleDownload (serverEnv (tinyResponse\<lparr>contentDisposition := None\<rparr>)) youtubeApp) =
     \<lparr>status = Error, progress = 0,
      message = ''ERROR: Downloaded file is too small - may be invalid'',
      downloadUrl = None, filename = None\<rparr>"
proof -
  let ?r = "tinyResponse\<lparr>contentDisposition := None\<rparr>"
  have 1: "fetch (serverEnv r) (endpoint youtubeApp) (requestBody youtubeApp) = Inr r" for r
    by (simp add: serverEnv_def)
  have 2: "ok tinyResponse" "ok ?r" by (simp_all add: ok_def tinyResponse_def)
  have 3: "blob tinyResponse = Inr 500" "blob ?r = Inr 500" by (simp_all add: tinyResponse_def)
  have 4: "(500 :: nat) < 1024" by simp
  have 5: "contentDisposition tinyResponse = Some clipHeader" by (simp add: tinyResponse_def)
  show ?thesis
    using small_body_is_error [OF youtubeApp_valid 1 2(1) 3(1) 4]
      small_body_is_error [OF youtubeApp_valid 1 2(2) 3(2) 4] youtubeApp_valid 2 3 5
    by simp
qed

subsection \<open>C4: a response that is not ok\<close>

text \<open>
  C4, as amended. When validation passes and the response is not ok, the submission
  ends in the state error with progress 0. Its message is \<open>ERROR:\<close> followed by
  \<^item> the \<open>message\<close> field of the body, when the body parses to an object whose
    \<open>message\<close> is a non-empty string;
  \<^item> for a \<open>message\<close> that is another value that counts as true: that value
    converted to a string, or the text of the runtime's TypeError when it cannot be
    converted;
  \<^item> \<open>Download failed\<close>, when the body parses to a value other than \<open>null\<close> that has
    no \<open>message\<close>, or one that counts as false;
  \<^item> \<open>Server error:\<close> and the status code, when the body does not parse, or parses
    to \<open>null\<close>.
\<close>

theorem failed_response_is_error:
  assumes "fst (validateInput a)"
      and "fetch e (endpoint a) (requestBody a) = Inr r"
      and "\<not> ok r"
  shows "status (downloadState (handleDownload e a)) = Error \<and>
         progress (downloadState (handleDownload e a)) = 0 \<and>
         (\<forall>kvs m. json_body r = Some (JObj kvs) \<and> map_of (rev kvs) ''message'' = Some (JStr m)
                   \<and> m \<noteq> [] \<longrightarrow>
            message (downloadState (handleDownload e a)) = ''ERROR: '' @ m) \<and>
         (\<forall>j v s. json_body r = Some j \<and> getMessage j = Value v \<and> truthy v
                   \<and> toStringJS v = Some s \<longrightarrow>
            message (downloadState (handleDownload e a)) = ''ERROR: '' @ s) \<and>
         (\<forall>j v. json_body r = Some j \<and> getMessage j = Value v \<and> truthy v
                 \<and> toStringJS v = None \<longrightarrow>
            message (downloadState (handleDownload e a)) = ''ERROR: '' @ typeErrorMessage e) \<and>
         (\<forall>j. json_body r = Some j \<and>
               (getMessage j = Undefined \<or> (\<exists>v. getMessage j = Value v \<and> \<not> truthy v)) \<longrightarrow>
            message (downloadState (handleDownload e a)) = ''ERROR: Download failed'') \<and>
         (json_body r = None \<or> json_body r = Some JNull \<longrightarrow>
            message (downloadState (handleDownload e a)) =
              ''ERROR: Server error: '' @ digits (resp_status r))"
proof -
  let ?b = "beginDownload e a"
  have f: "fetch e (endpoint ?b) (requestBody ?b) = Inr r" using assms(2) by simp
  note t = tryBlock_not_ok [OF f assms(3)]
  have h: "handleDownload e a = catchBlock e (errorMessageOf e r) (snd (tryBlock e ?b))"
    using handleDownload_pass [OF assms(1), of e] t(1) by simp
  have m: "message (downloadState (handleDownload e a)) = ''ERROR: '' @ errorMessageOf e r"
    using h by simp
  have 1: "status (downloadState (handleDownload e a)) = Error"
    and 2: "progress (downloadState (handleDownload e a)) = 0"
    using h by simp_all
  have 3: "errorMessageOf e r = m'"
    if "json_body r = Some (JObj kvs)" "map_of (rev kvs) ''message'' = Some (JStr m')" "m' \<noteq> []"
    for kvs m'
    using that by (simp add: errorMessageOf_def)
  have 4: "errorMessageOf e r = s"
    if "json_body r = Some j" "getMessage j = Value v" "truthy v" "toStringJS v = Some s"
    for j v s
    using that by (simp add: errorMessageOf_def)
  have 5: "errorMessageOf e r = typeErrorMessage e"
    if "json_body r = Some j" "getMessage j = Value v" "truthy v" "toStringJS v = None"
    for j v
    using that by (simp add: errorMessageOf_def)
  have 6: "errorMessageOf e r = ''Download failed''"
    if "json_body r = Some j" "getMessage j = Undefined \<or> (\<exists>v. getMessage j = Value v \<and> \<not> truthy v)"
    for j
    using that by (auto simp: errorMessageOf_def)
  have 7: "errorMessageOf e r = ''Server error: '' @ digits (resp_status r)"
    if "json_body r = None \<or> json_body r = Some JNull"
    using that by (auto simp: errorMessageOf_def)
  show ?thesis
    unfolding m using 1 2 3 4 5 6 7 by (simp only: append_Cons append_Nil) blast
qed

text \<open>
  The example of the specification, status 500 with the body
  \<^verbatim>\<open>{"message":"rate limited"}\<close>; the same response with a body that does not
  parse; and the body \<^verbatim>\<open>{"message":{"toString":1}}\<close>, whose message cannot be
  converted to a string.
\<close>

theorem failed_response_is_error_witness:
  "fst (validateInput youtubeApp) \<and> \<not> ok rateLimitedResponse \<and>
   json_body rateLimitedResponse = Some (JObj [(''message'', JStr ''rate limited'')]) \<and>
   status (downloadState (handleDownload (serverEnv rateLimitedResponse) youtubeApp)) = Error \<and>
   progress (downloadState (handleDownload (serverEnv rateLimitedResponse) youtubeApp)) = 0 \<and>
   message (downloadState (handleDownload (serverEnv rateLimitedResponse) youtubeApp)) =
     ''ERROR: rate limited'' \<and>
   message (downloadState (handleDownload
       (serverEnv (rateLimitedResponse\<lparr>json_body := None\<rparr>)) youtubeApp)) =
     ''ERROR: Server error: 500'' \<and>
   message (downloadState (handleDownload (serverEnv unprintableResponse) youtubeApp)) =
     ''ERROR: Cannot convert object to primitive value''"
proof -
  let ?r = "rateLimitedResponse\<lparr>json_body := None\<rparr>"
  have 1: "fetch (serverEnv r) (endpoint youtubeApp) (requestBody youtubeApp) = Inr r" for r
    by (simp add: serverEnv_def)
  have 2: "\<not> ok rateLimitedResponse" "\<not> ok ?r" "\<not> ok unprintableResponse"
    by (simp_all add: ok_def rateLimitedResponse_def unprintableResponse_def)
  have 3: "json_body rateLimitedResponse = Some (JObj [(''message'', JStr ''rate limited'')])"
    by (simp add: rateLimitedResponse_def)
  have 4: "json_body ?r = None" "resp_status ?r = 500" by (simp_all add: rateLimitedResponse_def)
  have 5: "digits 500 = ''500''" by (simp add: digits.simps digit_values)
  have 6: "json_body unprintableResponse =
             Some (JObj [(''message'', JObj [(''toString'', JNum ''1'')])])"
    "typeErrorMessage (serverEnv r) = ''Cannot convert object to primitive value''" for r
    by (simp_all add: unprintableResponse_def serverEnv_def)
  have 7: "message (downloadState (handleDownload (serverEnv unprintableResponse) youtubeApp)) =
     ''ERROR: Cannot convert object to primitive value''"
    using failed_response_is_error [OF youtubeApp_valid 1 2(3)] 6 by simp
  show ?thesis
    using failed_response_is_error [OF youtubeApp_valid 1 2(1)]
      failed_response_is_error [OF youtubeApp_valid 1 2(2)] youtubeApp_valid 2 3 4 5 7
    by simp
qed

text \<open>
  C4 as stated does not hold: the body \<^verbatim>\<open>{}\<close> parses as JSON and has no
  \<open>message\<close> field, and the message is the fixed text \<open>Download failed\<close>, which is
  neither taken from the body nor made from the status code.
\<close>

theorem message_not_from_body:
  "fst (validateInput youtubeApp) \<and> \<not> ok emptyObjectResponse \<and>
   json_body emptyObjectResponse = Some (JObj []) \<and>
   getMessage (JObj []) = Undefined \<and>
   message (downloadState (handleDownload (serverEnv emptyObjectResponse) youtubeApp)) =
     ''ERROR: Download failed''"
proof -
  let ?e = "serverEnv emptyObjectResponse" and ?b = "beginDownload (serverEnv emptyObjectResponse) youtubeApp"
  have f: "fetch ?e (endpoint ?b) (requestBody ?b) = Inr emptyObjectResponse"
    by (simp add: serverEnv_def)
  have n: "\<not> ok emptyObjectResponse" by (simp add: ok_def emptyObjectResponse_def)
  have j: "json_body emptyObjectResponse = Some (JObj [])" by (simp add: emptyObjectResponse_def)
  have m: "errorMessageOf ?e emptyObjectResponse = ''Download failed''"
    by (simp add: errorMessageOf_def j)
  note t = tryBlock_not_ok [OF f n]
  have "handleDownload ?e youtubeApp =
          catchBlock ?e (errorMessageOf ?e emptyObjectResponse) (snd (tryBlock ?e ?b))"
    using handleDownload_pass [OF youtubeApp_valid, of ?e] t(1) by simp
  then show ?thesis using youtubeApp_valid n j m by simp
qed

subsection \<open>C5: the invariant of the download state\<close>

text \<open>
  C5. In every run of the page, every value the download state has had (the initial
  one, those set during a submission, in the error case and by a reset) satisfies:
  idle implies progress 0, complete implies a file name, error implies progress 0.
  Every transition writes a whole new state that does not depend on the old one: the
  states a submission sets are the same for two pages that agree on platform, type and
  input text, whatever their old download states are, and a reset sets the one idle
  state.
\<close>

theorem state_invariant:
  "(\<forall>s\<in>set (history (run evs)). stateInv s) \<and>
   stateInv (downloadState (run evs)) \<and>
   (platform a = platform b \<and> downloadType a = downloadType b \<and> inputValue a = inputValue b
      \<longrightarrow> emitted a (handleDownload e a) = emitted b (handleDownload e b)) \<and>
   emitted a (resetState a) = [mkState Idle 0 []]"
proof -
  note r = run_invariant [of evs]
  have 1: "\<forall>s\<in>set (history (run evs)). stateInv s" using r by blast
  have "downloadState (run evs) \<in> set (history (run evs))" using r by simp
  then have 2: "stateInv (downloadState (run evs))" using 1 by blast
  have 3: "emitted a (handleDownload e a) = emitted b (handleDownload e b)"
    if "platform a = platform b \<and> downloadType a = downloadType b \<and> inputValue a = inputValue b"
    using that by (intro emitted_independent) simp_all
  have 4: "emitted a (resetState a) = [mkState Idle 0 []]" by (simp add: emitted_def)
  show ?thesis using 1 2 3 4 by blast
qed

text \<open>
  The session of \<open>sessionEvents\<close> passes through all five kinds of state; and a page
  whose old state is complete with a file name sets the same states in a failing
  submission as a fresh one.
\<close>

theorem state_invariant_witness:
  "list_all stateInv (history (run sessionEvents)) \<and>
   map status (history (run sessionEvents)) =
     [Idle, Processing, Processing, Downloading, Downloading, Complete, Idle] \<and>
   map filename (history (run sessionEvents)) =
     [None, None, None, None, None, Some ''clip.mp4'', None] \<and>
   filename (downloadState usedApp) = Some ''old.mp4'' \<and>
   emitted youtubeApp (handleDownload (serverEnv tinyResponse) youtubeApp) =
     emitted usedApp (handleDownload (serverEnv tinyResponse) usedApp)"
proof -
  note th = state_invariant [of sessionEvents youtubeApp usedApp "serverEnv tinyResponse"]
  have sel: "platform youtubeApp = platform usedApp \<and>
             downloadType youtubeApp = downloadType usedApp \<and>
             inputValue youtubeApp = inputValue usedApp"
    by (simp add: usedApp_def)
  have 1: "list_all stateInv (history (run sessionEvents))"
    using th by (simp add: list_all_iff)
  have 2: "emitted youtubeApp (handleDownload (serverEnv tinyResponse) youtubeApp) =
           emitted usedApp (handleDownload (serverEnv tinyResponse) usedApp)"
    using th sel by blast
  have 3: "filename (downloadState usedApp) = Some ''old.mp4''"
    by (simp add: usedApp_def)
  show ?thesis using 1 2 3 session_states by simp
qed

subsection \<open>C6: blank input\<close>

text \<open>
  C6. When the input text is empty after trimming (by \<open>trim_Nil_iff\<close>: when it is
  empty or all its characters are white space), validation fails with the toast
  \<open>ERROR.EMPTY_INPUT\<close>, whose description is \<open>Please provide a username\<close> in search
  mode and \<open>Please provide a URL\<close> otherwise, and the submission only adds this toast:
  the download state, its history and the console are what they were.
\<close>

theorem blank_input_rejected:
  assumes "trim (inputValue a) = []"
  shows "validateInput a =
           (False, toast \<lparr>title = ''ERROR.EMPTY_INPUT'',
                           description = (if downloadType a = Search
                                          then ''Please provide a username''
                                          else ''Please provide a URL''),
                           destructive = True\<rparr> a) \<and>
         handleDownload e a =
           toast \<lparr>title = ''ERROR.EMPTY_INPUT'',
                   description = (if downloadType a = Search
                                  then ''Please provide a username''
                                  else ''Please provide a URL''),
                   destructive = True\<rparr> a \<and>
         downloadState (handleDownload e a) = downloadState a \<and>
         history (handleDownload e a) = history a \<and>
         consoleLines (handleDownload e a) = consoleLines a"
proof -
  have v: "validateInput a =
           (False, toast \<lparr>title = ''ERROR.EMPTY_INPUT'',
                           description = (if downloadType a = Search
                                          then ''Please provide a username''
                                          else ''Please provide a URL''),
                           destructive = True\<rparr> a)"
    using assms by (simp add: validateInput_def)
  then have h: "handleDownload e a =
           toast \<lparr>title = ''ERROR.EMPTY_INPUT'',
                   description = (if downloadType a = Search
                                  then ''Please provide a username''
                                  else ''Please provide a URL''),
                   destructive = True\<rparr> a"
    by (simp add: handleDownload_def)
  show ?thesis unfolding h using v by simp
qed

text \<open>A blank in a search, and the empty input of the page as first rendered.\<close>

theorem blank_input_rejected_witness:
  "trim (inputValue blankSearchApp) = [] \<and> trim (inputValue initApp) = [] \<and>
   last (toasts (handleDownload (serverEnv clipResponse) blankSearchApp)) =
     \<lparr>title = ''ERROR.EMPTY_INPUT'', description = ''Please provide a username'',
      destructive = True\<rparr> \<and>
   last (toasts (handleDownload (serverEnv clipResponse) initApp)) =
     \<lparr>title = ''ERROR.EMPTY_INPUT'', description = ''Please provide a URL'',
      destructive = True\<rparr> \<and>
   downloadState (handleDownload (serverEnv clipResponse) blankSearchApp) =
     downloadState blankSearchApp \<and>
   history (handleDownload (serverEnv clipResponse) initApp) = history initApp"
proof -
  have 1: "trim (inputValue blankSearchApp) = []"
    by (simp add: blankSearchApp_def trim_def isWhiteSpace_def)
  have 2: "trim (inputValue initApp) = []"
    by (simp add: initApp_def trim_def)
  have 3: "downloadType blankSearchApp = Search" "downloadType initApp = Video"
    by (simp_all add: blankSearchApp_def initApp_def)
  show ?thesis
    using blank_input_rejected [OF 1, of "serverEnv clipResponse"]
      blank_input_rejected [OF 2, of "serverEnv clipResponse"] 1 2 3
    by simp
qed

subsection \<open>C7: the substring check\<close>

text \<open>
  C7, as amended. When the input text is not empty after trimming: in search mode
  validation succeeds whatever the text contains; in the other modes it succeeds exactly
  when the text as typed (not trimmed) contains \<open>youtu\<close> for YouTube and \<open>tiktok\<close> for
  TikTok, and fails with the toast \<open>ERROR.INVALID_URL\<close> otherwise. A successful
  validation leaves the state alone.
\<close>

theorem url_check_after_trim:
  assumes "trim (inputValue a) \<noteq> []"
  shows "(downloadType a = Search \<longrightarrow> validateInput a = (True, a)) \<and>
         (downloadType a \<noteq> Search \<longrightarrow>
            (fst (validateInput a) \<longleftrightarrow>
               (case platform a of
                  Youtube \<Rightarrow> includesStr (inputValue a) ''youtu''
                | Tiktok \<Rightarrow> includesStr (inputValue a) ''tiktok''))) \<and>
         (fst (validateInput a) \<longrightarrow> snd (validateInput a) = a) \<and>
         (\<not> fst (validateInput a) \<longrightarrow>
            title (last (toasts (snd (validateInput a)))) = ''ERROR.INVALID_URL'')"
  using assms by (cases "platform a") (simp_all add: validateInput_def)

text \<open>
  C7 as stated does not hold: a text that is not empty but blank fails validation, also
  in search mode.
\<close>

theorem blank_search_rejected:
  "inputValue blankSearchApp \<noteq> [] \<and> downloadType blankSearchApp = Search \<and>
   \<not> fst (validateInput blankSearchApp)"
  by (simp add: blankSearchApp_def initApp_def validateInput_def trim_def isWhiteSpace_def)

text \<open>
  The examples of the specification: \<open>https://example.com\<close> for a YouTube video fails,
  \<open>@badbunny\<close> for a TikTok search passes.
\<close>

theorem url_check_after_trim_witness:
  "trim (inputValue (youtubeApp\<lparr>inputValue := ''https://example.com''\<rparr>)) \<noteq> [] \<and>
   \<not> fst (validateInput (youtubeApp\<lparr>inputValue := ''https://example.com''\<rparr>)) \<and>
   title (last (toasts (snd (validateInput
      (youtubeApp\<lparr>inputValue := ''https://example.com''\<rparr>))))) = ''ERROR.INVALID_URL'' \<and>
   trim (inputValue (blankSearchApp\<lparr>inputValue := ''@badbunny''\<rparr>)) \<noteq> [] \<and>
   fst (validateInput (blankSearchApp\<lparr>inputValue := ''@badbunny''\<rparr>))"
proof -
  let ?a = "youtubeApp\<lparr>inputValue := ''https://example.com''\<rparr>"
  let ?b = "blankSearchApp\<lparr>inputValue := ''@badbunny''\<rparr>"
  have 1: "trim (inputValue ?a) \<noteq> []" by (simp add: trim_def isWhiteSpace_def)
  have 2: "trim (inputValue ?b) \<noteq> []" by (simp add: trim_def isWhiteSpace_def)
  have 3: "platform ?a = Youtube" "downloadType ?a = Video" "downloadType ?b = Search"
    "\<not> includesStr (inputValue ?a) ''youtu''"
    by (simp_all add: youtubeApp_def blankSearchApp_def initApp_def)
  show ?thesis
    using url_check_after_trim [OF 1] url_check_after_trim [OF 2] 1 2 3 by simp
qed

subsection \<open>C8: the file name\<close>

text \<open>
  C8. The resolved file name is never empty. Without a disposition header it is
  \<open>platform_type_millis\<close> with \<open>.mp3\<close> appended for audio and \<open>.mp4\<close> otherwise, and so
  it is whenever the header gives no name. A name from the header that contains no dot
  gets the same extension appended; one that contains a dot is kept as it is.
\<close>

theorem filename_resolution:
  "resolveFilename p t ms cd \<noteq> [] \<and>
   resolveFilename p t ms None =
     platformStr p @ ''_'' @ typeStr t @ ''_'' @ showInt ms
       @ (if t = Audio then ''.mp3'' else ''.mp4'') \<and>
   (dispositionName cd = None \<longrightarrow>
      resolveFilename p t ms cd =
        platformStr p @ ''_'' @ typeStr t @ ''_'' @ showInt ms
          @ (if t = Audio then ''.mp3'' else ''.mp4'')) \<and>
   (\<forall>g. dispositionName cd = Some g \<and> CHR ''.'' \<notin> set g \<longrightarrow>
      resolveFilename p t ms cd = g @ (if t = Audio then ''.mp3'' else ''.mp4'')) \<and>
   (\<forall>g. dispositionName cd = Some g \<and> CHR ''.'' \<in> set g \<longrightarrow>
      resolveFilename p t ms cd = g)"
proof -
  let ?ext = "if t = Audio then ''.mp3'' else ''.mp4''"
  let ?syn = "platformStr p @ ''_'' @ typeStr t @ ''_'' @ showInt ms"
  let ?full = "platformStr p @ ''_'' @ typeStr t @ ''_'' @ showInt ms @ ?ext"
  have "CHR ''.'' \<notin> set ?syn" by (rule synthesized_no_dot)
  then have nodot: "\<not> includesStr ?syn ''.''"
    by (simp only: includesStr_single not_False_eq_True)
  have none: "resolveFilename p t ms cd' = ?full" if "dispositionName cd' = None" for cd'
  proof -
    have "resolveFilename p t ms cd' = ?syn @ ?ext"
      using that nodot unfolding resolveFilename_def Let_def by (simp only: option.case if_True if_False simp_thms)
    then show ?thesis by simp
  qed
  have some1: "resolveFilename p t ms cd = g @ ?ext"
    if "dispositionName cd = Some g" "CHR ''.'' \<notin> set g" for g
    using that unfolding resolveFilename_def Let_def
    by (simp only: option.case includesStr_single if_True if_False simp_thms)
  have some2: "resolveFilename p t ms cd = g"
    if "dispositionName cd = Some g" "CHR ''.'' \<in> set g" for g
    using that unfolding resolveFilename_def Let_def
    by (simp only: option.case includesStr_single if_True if_False simp_thms)
  have dn: "dispositionName None = None" by (simp add: dispositionName_def)
  have ne: "resolveFilename p t ms cd \<noteq> []"
  proof (cases "dispositionName cd")
    case None
    have "platformStr p \<noteq> []" by (cases p) (simp_all add: platformStr_def)
    then show ?thesis unfolding none [OF None] by simp
  next
    case (Some g)
    then have g: "g \<noteq> []" by (rule dispositionName_ne_Nil)
    show ?thesis
    proof (cases "CHR ''.'' \<in> set g")
      case True
      show ?thesis unfolding some2 [OF Some True] by (rule g)
    next
      case False
      show ?thesis unfolding some1 [OF Some False] using g by simp
    qed
  qed
  show ?thesis
  proof (intro conjI allI impI)
    show "resolveFilename p t ms cd \<noteq> []" by (rule ne)
    show "resolveFilename p t ms None = ?full" by (rule none [OF dn])
    show "resolveFilename p t ms cd = ?full" if "dispositionName cd = None"
      using that by (rule none)
    show "resolveFilename p t ms cd = g @ ?ext"
      if "dispositionName cd = Some g \<and> CHR ''.'' \<notin> set g" for g
      using that some1 [of g] by (elim conjE) 
    show "resolveFilename p t ms cd = g"
      if "dispositionName cd = Some g \<and> CHR ''.'' \<in> set g" for g
      using that some2 [of g] by (elim conjE)
  qed
qed

text \<open>
  An audio request without a header, a header without a name, a name without a dot and a
  name with one.
\<close>

theorem filename_resolution_witness:
  "resolveFilename Youtube Audio 1700000000000 None = ''youtube_audio_1700000000000.mp3'' \<and>
   resolveFilename Tiktok Search 1700000000000 (Some ''inline'') = ''tiktok_search_1700000000000.mp4'' \<and>
   resolveFilename Youtube Audio 0 (Some ''attachment; filename=track'') = ''track.mp3'' \<and>
   resolveFilename Youtube Video 0 (Some clipHeader) = ''clip.mp4''"
proof -
  have 1: "showInt 1700000000000 = ''1700000000000''"
    by (simp add: showInt_def digits.simps digit_def char_of_def bit_Suc_0_iff)
  have 2: "dispositionName (Some ''inline'') = None"
    by (simp add: dispositionName_def matchAt_def)
  have 3: "dispositionName (Some ''attachment; filename=track'') = Some ''track''"
    by (simp add: dispositionName_def matchAt_def nameChar_def)
  have 4: "CHR ''.'' \<notin> set ''track''" "CHR ''.'' \<in> set ''clip.mp4''" by simp_all
  show ?thesis
    using filename_resolution [of Youtube Audio 1700000000000 None]
      filename_resolution [of Tiktok Search 1700000000000 "Some ''inline''"]
      filename_resolution [of Youtube Audio 0 "Some ''attachment; filename=track''"]
      filename_resolution [of Youtube Video 0 "Some clipHeader"]
      1 2 3 4 clip_header_name
    by (simp add: platformStr_def typeStr_def)
qed

subsection \<open>C9: reset\<close>

text \<open>
  C9. From any state, \<open>resetState\<close> yields the download state idle with progress 0,
  the empty message and neither file name nor download URL, the empty console and the
  empty input text.
\<close>

theorem reset_yields_idle:
  "downloadState (resetState a) =
     \<lparr>status = Idle, progress = 0, message = [], downloadUrl = None, filename = None\<rparr> \<and>
   consoleLines (resetState a) = [] \<and> inputValue (resetState a) = []"
  by (simp add: resetState_def mkState_def)

subsection \<open>C10: the download URL\<close>

text \<open>
  C10. In every run of the page, no value the download state has had carries a
  download URL: not the initial state, not a state set during a submission (the
  complete state included), not the state after a reset.
\<close>

theorem downloadUrl_never_set:
  "(\<forall>s\<in>set (history (run evs)). downloadUrl s = None) \<and>
   downloadUrl (downloadState (run evs)) = None \<and>
   downloadState (run evs) \<in> set (history (run evs))"
proof -
  note r = run_invariant [of evs]
  have 1: "\<forall>s\<in>set (history (run evs)). downloadUrl s = None" using r by blast
  have 3: "downloadState (run evs) \<in> set (history (run evs))" using r by simp
  then have 2: "downloadUrl (downloadState (run evs)) = None" using 1 by blast
  show ?thesis using 1 2 3 by blast
qed

text \<open>The session of \<open>sessionEvents\<close>, which reaches the complete state.\<close>

theorem downloadUrl_never_set_witness:
  "list_all (\<lambda>s. downloadUrl s = None) (history (run sessionEvents)) \<and>
   map status (history (run sessionEvents)) =
     [Idle, Processing, Processing, Downloading, Downloading, Complete, Idle] \<and>
   downloadUrl (downloadState (run sessionEvents)) = None"
proof -
  note th = downloadUrl_never_set [of sessionEvents]
  have 1: "list_all (\<lambda>s. downloadUrl s = None) (history (run sessionEvents))"
    using th by (simp add: list_all_iff)
  have 2: "downloadUrl (downloadState (run sessionEvents)) = None"
    using th by blast
  show ?thesis using 1 2 session_states(1) by simp
qed

end
